theory Spec2Isabelle
  imports Main
begin

section \<open>Time\<close>

text \<open>
  The bot handles timezone-aware \<^verbatim>\<open>datetime\<close> values only. An aware datetime denotes
  an instant; Python compares aware datetimes as instants and \<^verbatim>\<open>dt + timedelta\<close> moves
  the instant by the duration when the zone is a fixed offset. Both types have microsecond
  resolution, as has the \<^verbatim>\<open>TIMESTAMPTZ\<close> column. An instant is therefore an integer number
  of microseconds since 1970-01-01T00:00:00Z, and a \<^verbatim>\<open>timedelta\<close> an integer number of
  microseconds. (Python's datetime stops at year 9999; the model has no such bound.)
\<close>

type_synonym instant = int
type_synonym duration = int

definition timedelta :: "int \<Rightarrow> int \<Rightarrow> duration" where
  \<comment> \<open>\<^verbatim>\<open>timedelta(days=d, hours=h)\<close>\<close>
  "timedelta days hours = days * 86400000000 + hours * 3600000000"

text \<open>\<^verbatim>\<open>MOSCOW_TZ = timezone(timedelta(hours=3))\<close>: a zone is its offset from UTC.\<close>

definition MOSCOW_TZ :: duration where
  "MOSCOW_TZ = timedelta 0 3"

section \<open>Values and errors\<close>

datatype py_value = PyNone | PyInt int | PyStr string

datatype error =
    ValueError string
  | AttributeError
  | UniqueViolationError
  | SequenceGeneratorLimitExceededError

section \<open>The reminders table\<close>

text \<open>
  \<^verbatim>\<open>CREATE TABLE IF NOT EXISTS reminders (id SERIAL PRIMARY KEY, user_id BIGINT,
  message TEXT, remind_time TIMESTAMPTZ, repeat TEXT)\<close>.
  A row carries the five columns. \<^verbatim>\<open>SERIAL\<close> gives the table a sequence from which
  \<^verbatim>\<open>id\<close> is drawn when an \<^verbatim>\<open>INSERT\<close> does not name the column; the column is a four-byte
  integer, so the sequence stops at 2147483647. No column has a \<^verbatim>\<open>CHECK\<close> or
  \<^verbatim>\<open>NOT NULL\<close> constraint other than the primary key.
\<close>

record reminder =
  row_id :: int
  user_id :: int
  message :: string
  remind_time :: instant
  repeat :: string

record database =
  reminders :: "reminder list"
  reminders_id_seq :: int

definition SERIAL_MAX :: int where
  "SERIAL_MAX = 2147483647"

definition empty_table :: database where
  "empty_table = \<lparr>reminders = [], reminders_id_seq = 1\<rparr>"

definition sql_insert :: "int \<Rightarrow> string \<Rightarrow> instant \<Rightarrow> string \<Rightarrow> database \<Rightarrow> error option \<times> database" where
  \<comment> \<open>\<^verbatim>\<open>INSERT INTO reminders (user_id, message, remind_time, repeat) VALUES ($1, $2, $3, $4)\<close>:
      the id is the sequence's next value; a sequence keeps its advance when the statement
      fails on the primary key.\<close>
  "sql_insert uid msg t rep db =
     (let v = reminders_id_seq db in
      if SERIAL_MAX < v then (Some SequenceGeneratorLimitExceededError, db)
      else
        let db1 = db\<lparr>reminders_id_seq := v + 1\<rparr> in
        if v \<in> set (map row_id (reminders db)) then (Some UniqueViolationError, db1)
        else (None, db1\<lparr>reminders := reminders db @
               [\<lparr>row_id = v, user_id = uid, message = msg, remind_time = t, repeat = rep\<rparr>]\<rparr>))"

definition sql_delete :: "int \<Rightarrow> database \<Rightarrow> database" where
  \<comment> \<open>\<^verbatim>\<open>DELETE FROM reminders WHERE id = $1\<close>\<close>
  "sql_delete reminder_id db =
     db\<lparr>reminders := filter (\<lambda>r. row_id r \<noteq> reminder_id) (reminders db)\<rparr>"

section \<open>The process\<close>

text \<open>
  The module's globals. \<^verbatim>\<open>db_pool\<close> is \<^verbatim>\<open>None\<close> until \<^verbatim>\<open>init_db\<close> has run; afterwards it
  gives access to the table, which the model keeps in its place. \<^verbatim>\<open>user_state\<close> is the
  dictionary of drafts, keyed by user id; the type of its values is a parameter here.
\<close>

record 'd process =
  TOKEN :: string
  DATABASE_URL :: string
  db_pool :: "database option"
  user_state :: "int \<rightharpoonup> 'd"

definition falsy :: "string option \<Rightarrow> bool" where
  \<comment> \<open>\<^verbatim>\<open>not x\<close> for the result of \<^verbatim>\<open>os.getenv\<close>: \<^verbatim>\<open>None\<close> or the empty string\<close>
  "falsy x = (case x of None \<Rightarrow> True | Some s \<Rightarrow> s = [])"

definition module_init :: "(string \<rightharpoonup> string) \<Rightarrow> error + 'd process" where
  \<comment> \<open>Lines 17 to 32 and 77 of the module; \<open>environ\<close> is the environment after
      \<^verbatim>\<open>load_dotenv()\<close>. The text of a \<^verbatim>\<open>ValueError\<close> is stood for by the variable it names.
      \<^verbatim>\<open>Bot\<close> and \<^verbatim>\<open>Dispatcher\<close> are library objects; of the bot the state keeps its token.\<close>
  "module_init environ =
     (let token = environ ''BOT_TOKEN''; url = environ ''DATABASE_URL'' in
      if falsy token then Inl (ValueError ''BOT_TOKEN'')
      else if falsy url then Inl (ValueError ''DATABASE_URL'')
      else Inr \<lparr>TOKEN = the token, DATABASE_URL = the url, db_pool = None,
                user_state = Map.empty\<rparr>)"

definition init_db :: "database option \<Rightarrow> 'd process \<Rightarrow> 'd process" where
  \<comment> \<open>\<open>server\<close> is what the database at \<^verbatim>\<open>DATABASE_URL\<close> holds: \<open>None\<close> when it has no
      table \<^verbatim>\<open>reminders\<close> yet.\<close>
  "init_db server p =
     p\<lparr>db_pool := Some (case server of None \<Rightarrow> empty_table | Some db \<Rightarrow> db)\<rparr>"

definition save_reminder ::
  "int \<Rightarrow> string \<Rightarrow> instant \<Rightarrow> string \<Rightarrow> 'd process \<Rightarrow> (error + py_value) \<times> 'd process" where
  \<comment> \<open>The function has no \<^verbatim>\<open>return\<close>: its value is \<^verbatim>\<open>None\<close>.\<close>
  "save_reminder uid msg t rep p =
     (case db_pool p of
        None \<Rightarrow> (Inl AttributeError, p)
      | Some db \<Rightarrow>
          (case sql_insert uid msg t rep db of
             (Some e, db') \<Rightarrow> (Inl e, p\<lparr>db_pool := Some db'\<rparr>)
           | (None, db') \<Rightarrow> (Inr PyNone, p\<lparr>db_pool := Some db'\<rparr>)))"

definition delete_reminder_by_id :: "int \<Rightarrow> 'd process \<Rightarrow> (error + py_value) \<times> 'd process" where
  "delete_reminder_by_id reminder_id p =
     (case db_pool p of
        None \<Rightarrow> (Inl AttributeError, p)
      | Some db \<Rightarrow> (Inr PyNone, p\<lparr>db_pool := Some (sql_delete reminder_id db)\<rparr>))"

definition REPEAT_TYPES :: "(string \<times> string) list" where
  \<comment> \<open>The labels are the UTF-8 bytes of the source's literals.\<close>
  "REPEAT_TYPES =
     [(''daily'',
        [CHR 0xF0, CHR 0x9F, CHR 0x94, CHR 0x81, CHR 0x20, CHR 0xD0, CHR 0x95, CHR 0xD0,
         CHR 0xB6, CHR 0xD0, CHR 0xB5, CHR 0xD0, CHR 0xB4, CHR 0xD0, CHR 0xBD, CHR 0xD0,
         CHR 0xB5, CHR 0xD0, CHR 0xB2, CHR 0xD0, CHR 0xBD, CHR 0xD0, CHR 0xBE]),
      (''weekly'',
        [CHR 0xF0, CHR 0x9F, CHR 0x93, CHR 0x85, CHR 0x20, CHR 0xD0, CHR 0x95, CHR 0xD0,
         CHR 0xB6, CHR 0xD0, CHR 0xB5, CHR 0xD0, CHR 0xBD, CHR 0xD0, CHR 0xB5, CHR 0xD0,
         CHR 0xB4, CHR 0xD0, CHR 0xB5, CHR 0xD0, CHR 0xBB, CHR 0xD1, CHR 0x8C, CHR 0xD0,
         CHR 0xBD, CHR 0xD0, CHR 0xBE]),
      (''monthly'',
        [CHR 0xF0, CHR 0x9F, CHR 0x97, CHR 0x93, CHR 0xEF, CHR 0xB8, CHR 0x8F, CHR 0x20,
         CHR 0xD0, CHR 0x95, CHR 0xD0, CHR 0xB6, CHR 0xD0, CHR 0xB5, CHR 0xD0, CHR 0xBC,
         CHR 0xD0, CHR 0xB5, CHR 0xD1, CHR 0x81, CHR 0xD1, CHR 0x8F, CHR 0xD1, CHR 0x87,
         CHR 0xD0, CHR 0xBD, CHR 0xD0, CHR 0xBE]),
      (''none'',
        [CHR 0xF0, CHR 0x9F, CHR 0x9A, CHR 0xAB, CHR 0x20, CHR 0xD0, CHR 0x91, CHR 0xD0,
         CHR 0xB5, CHR 0xD0, CHR 0xB7, CHR 0x20, CHR 0xD0, CHR 0xBF, CHR 0xD0, CHR 0xBE,
         CHR 0xD0, CHR 0xB2, CHR 0xD1, CHR 0x82, CHR 0xD0, CHR 0xBE, CHR 0xD1, CHR 0x80,
         CHR 0xD0, CHR 0xB0])]"

section \<open>Wall-clock time in a fixed offset\<close>

text \<open>
  Modelled from the spec: the source that reads the clock and builds \<^verbatim>\<open>dueAt\<close> from the
  user's \<^verbatim>\<open>HH:MM\<close> is missing. The fields of an aware datetime as seen in a zone, with the
  calendar date kept as its day number (days since 1970-01-01); \<open>astimezone\<close> reads an
  instant in a zone and \<open>instant_of\<close> goes back.
\<close>

record wall_clock =
  day_number :: int
  hour :: int
  minute :: int
  second :: int
  microsecond :: int

text \<open>
  Modelled from the spec: the code that views the clock in the fixed offset is missing.
  The wall clock of an instant in the zone of offset \<open>tz\<close>.
\<close>

definition astimezone :: "duration \<Rightarrow> instant \<Rightarrow> wall_clock" where
  "astimezone tz t =
     (let l = t + tz in
      \<lparr>day_number = l div 86400000000,
       hour = l mod 86400000000 div 3600000000,
       minute = l mod 3600000000 div 60000000,
       second = l mod 60000000 div 1000000,
       microsecond = l mod 1000000\<rparr>)"

text \<open>
  Modelled from the spec: the code that builds \<^verbatim>\<open>dueAt\<close> from wall-clock fields is
  missing. The instant that shows the wall clock \<open>w\<close> in the zone of offset \<open>tz\<close>.
\<close>

definition instant_of :: "duration \<Rightarrow> wall_clock \<Rightarrow> instant" where
  "instant_of tz w =
     (((day_number w * 24 + hour w) * 60 + minute w) * 60 + second w) * 1000000
       + microsecond w - tz"

text \<open>
  The calendar date (year, month, day) of a day number in the proleptic Gregorian
  calendar, the calendar of Python's \<^verbatim>\<open>date\<close>. It serves to read the day numbers of
  the examples.
\<close>

definition civil_from_days :: "int \<Rightarrow> int \<times> int \<times> int" where
  "civil_from_days n =
     (let z = n + 719468;
          era = z div 146097;
          doe = z - era * 146097;
          yoe = (doe - doe div 1460 + doe div 36524 - doe div 146096) div 365;
          doy = doe - (365 * yoe + yoe div 4 - yoe div 100);
          mp = (5 * doy + 2) div 153;
          d = doy - (153 * mp + 2) div 5 + 1;
          m = (if mp < 10 then mp + 3 else mp - 9)
      in (yoe + era * 400 + (if m \<le> 2 then 1 else 0), m, d))"

text \<open>
  Modelled from the spec: the source of the \<^verbatim>\<open>awaitingTime\<close> step is missing. "Compute the
  next occurrence of that wall-clock time at or after now in the fixed offset; if the
  time-of-day is already in the past for today, roll forward exactly one day; never equal
  to or before now."
\<close>

definition today_at :: "instant \<Rightarrow> int \<Rightarrow> int \<Rightarrow> instant" where
  \<comment> \<open>today's date in the fixed offset, at \<open>h:m:00\<close>\<close>
  "today_at now h m = instant_of MOSCOW_TZ
     ((astimezone MOSCOW_TZ now)\<lparr>hour := h, minute := m, second := 0, microsecond := 0\<rparr>)"

text \<open>
  Modelled from the spec: the rest of the missing \<^verbatim>\<open>awaitingTime\<close> computation. Today's
  occurrence when it is still after now, tomorrow's otherwise.
\<close>

definition due_at :: "instant \<Rightarrow> int \<Rightarrow> int \<Rightarrow> instant" where
  "due_at now h m =
     (let today = today_at now h m
      in if today \<le> now then today + timedelta 1 0 else today)"

text \<open>
  Modelled from the spec: the source that parses the user's time is missing. A text parses
  as \<^verbatim>\<open>HH:MM\<close> when it is two digits, a colon and two digits, with hour 0 to 23 and
  minute 0 to 59; \<open>hhmm\<close> writes a time of day in that shape.
\<close>

definition digit :: "char \<Rightarrow> int option" where
  "digit c = (let n = of_char c :: int in if 48 \<le> n \<and> n \<le> 57 then Some (n - 48) else None)"

text \<open>
  Modelled from the spec: the missing parser. Anything that is not of the shape
  \<^verbatim>\<open>HH:MM\<close>, not numeric or out of range is a parse failure.
\<close>

fun parse_hhmm :: "string \<Rightarrow> (int \<times> int) option" where
  "parse_hhmm [h1, h2, c, m1, m2] =
     (case (digit h1, digit h2, digit m1, digit m2) of
        (Some a, Some b, Some x, Some y) \<Rightarrow>
          if c = CHR '':'' \<and> 10 * a + b \<le> 23 \<and> 10 * x + y \<le> 59
          then Some (10 * a + b, 10 * x + y) else None
      | _ \<Rightarrow> None)"
| "parse_hhmm _ = None"

text \<open>
  Modelled from the spec: the text \<^verbatim>\<open>HH:MM\<close> of an hour and a minute, the well-formed
  input of the missing parser.
\<close>

definition hhmm :: "int \<Rightarrow> int \<Rightarrow> string" where
  "hhmm h m = [char_of (48 + h div 10), char_of (48 + h mod 10), CHR '':'',
               char_of (48 + m div 10), char_of (48 + m mod 10)]"

text \<open>
  Modelled from the spec: the source that trims the user's text is missing. Trimming drops
  the leading and the trailing whitespace characters.
\<close>

definition is_space :: "char \<Rightarrow> bool" where
  "is_space c = (of_char c \<in> set [9, 10, 11, 12, 13, 28, 29, 30, 31, 32 :: nat])"

text \<open>
  Modelled from the spec: the trimmed text of the missing \<^verbatim>\<open>awaitingText\<close> step.
\<close>

definition strip :: "string \<Rightarrow> string" where
  "strip s = rev (dropWhile is_space (rev (dropWhile is_space s)))"

section \<open>Recurrence calculator\<close>

text \<open>
  Modelled from the spec: the source of the recurrence calculator is missing.
  \<^verbatim>\<open>next(now, repeatKind)\<close>: daily is now + 1 day, weekly is now + 7 days, monthly is
  now + 30 days, and \<^verbatim>\<open>none\<close> has no next occurrence. The kinds are the keys of
  \<open>REPEAT_TYPES\<close>, as the table stores them.
\<close>

definition next_occurrence :: "instant \<Rightarrow> string \<Rightarrow> instant option" where
  "next_occurrence now kind =
     (if kind = ''daily'' then Some (now + timedelta 1 0)
      else if kind = ''weekly'' then Some (now + timedelta 7 0)
      else if kind = ''monthly'' then Some (now + timedelta 30 0)
      else None)"

text \<open>
  Modelled from the spec: successive firings of a recurring reminder, each taking the
  result of the missing calculator as the next anchor.
\<close>

fun firings :: "nat \<Rightarrow> instant \<Rightarrow> string \<Rightarrow> instant option" where
  \<comment> \<open>the anchor after \<open>n\<close> successive firings, each one taking the previous result as its now\<close>
  "firings 0 now kind = Some now"
| "firings (Suc n) now kind =
     (case firings n now kind of None \<Rightarrow> None | Some t \<Rightarrow> next_occurrence t kind)"

section \<open>Conversation state machine\<close>

text \<open>
  Modelled from the spec: the source of the handlers is missing; only the dictionary
  \<^verbatim>\<open>user_state\<close> they work on is there. A draft is the step a user is in together with
  the fields collected so far; a user without an entry is idle.
\<close>

datatype draft =
    AwaitingText
  | AwaitingTime string
  | AwaitingRepeat string instant

text \<open>
  Modelled from the spec: the events of section 6 that the missing handlers receive, each
  with the user it comes from; a delete request names the reminder.
\<close>

datatype event =
    StartNew int
  | FreeText int string
  | RepeatChoice int string
  | Cancel int
  | DeleteRequest int int

text \<open>
  Modelled from the spec: the prompts the missing handlers emit. A confirmation carries the
  text, the due time as wall clock in the fixed offset, and the label of the repeat kind.
\<close>

datatype prompt =
    AskText
  | EmptyTextRejected
  | AskTime
  | TimeFormatError
  | AskRepeat
  | ExpiredSession
  | Confirmation string wall_clock string
  | PersistenceFailure

text \<open>
  Modelled from the spec: the missing handlers discard a user's draft by removing the
  user's entry from \<^verbatim>\<open>user_state\<close>.
\<close>

definition discard_draft :: "int \<Rightarrow> draft process \<Rightarrow> draft process" where
  "discard_draft uid p = p\<lparr>user_state := (user_state p)(uid := None)\<rparr>"

text \<open>
  Modelled from the spec: the transitions of section 4.1. \<open>now\<close> is the clock's reading
  when the event is handled; the result is the new process state and the prompts sent,
  each with the user it goes to. The spec names no prompt for a cancel and no guard for a
  delete request, so the one sends nothing and the other deletes the row of that id.
\<close>

fun handle_event :: "instant \<Rightarrow> event \<Rightarrow> draft process \<Rightarrow> draft process \<times> (int \<times> prompt) list" where
  "handle_event now (StartNew uid) p =
     (p\<lparr>user_state := (user_state p)(uid \<mapsto> AwaitingText)\<rparr>, [(uid, AskText)])"
| "handle_event now (FreeText uid text) p =
     (case user_state p uid of
        Some AwaitingText \<Rightarrow>
          (let t = strip text in
           if t = [] then (p, [(uid, EmptyTextRejected)])
           else (p\<lparr>user_state := (user_state p)(uid \<mapsto> AwaitingTime t)\<rparr>, [(uid, AskTime)]))
      | Some (AwaitingTime t) \<Rightarrow>
          (case parse_hhmm text of
             None \<Rightarrow> (p, [(uid, TimeFormatError)])
           | Some (h, m) \<Rightarrow>
               (p\<lparr>user_state := (user_state p)(uid \<mapsto> AwaitingRepeat t (due_at now h m))\<rparr>,
                [(uid, AskRepeat)]))
      | _ \<Rightarrow> (p, []))"
| "handle_event now (RepeatChoice uid kind) p =
     (case user_state p uid of
        Some (AwaitingRepeat t due) \<Rightarrow>
          (case map_of REPEAT_TYPES kind of
             None \<Rightarrow> (p, [])
           | Some label \<Rightarrow>
               (case save_reminder uid t due kind p of
                  (Inr _, p') \<Rightarrow>
                    (discard_draft uid p',
                     [(uid, Confirmation t (astimezone MOSCOW_TZ due) label)])
                | (Inl _, p') \<Rightarrow> (discard_draft uid p', [(uid, PersistenceFailure)])))
      | _ \<Rightarrow> (p, [(uid, ExpiredSession)]))"
| "handle_event now (Cancel uid) p = (discard_draft uid p, [])"
| "handle_event now (DeleteRequest uid reminder_id) p =
     (snd (delete_reminder_by_id reminder_id p), [])"

section \<open>Dispatch scheduler\<close>

text \<open>
  Modelled from the spec: the source of the scheduler is missing. One scan fetches the rows
  with \<^verbatim>\<open>dueAt <= now\<close> and, for each, attempts delivery, deletes the fired row whatever
  the outcome, and for a repeat other than \<^verbatim>\<open>none\<close> inserts the next occurrence computed
  from the scan's now. \<open>notifier\<close> tells for each row whether its delivery succeeds. A store
  failure ends the scan. The trace lists what the scan did, in order.
\<close>

datatype scan_event =
    Delivery reminder bool
  | Deletion int
  | Reinsertion int string instant string

text \<open>
  Modelled from the spec: \<^verbatim>\<open>listDue(now)\<close> of the missing scheduler, all rows with
  \<^verbatim>\<open>dueAt <= now\<close>, in the order of the table.
\<close>

definition list_due :: "instant \<Rightarrow> database \<Rightarrow> reminder list" where
  "list_due now db = filter (\<lambda>r. remind_time r \<le> now) (reminders db)"

text \<open>
  Modelled from the spec: the next occurrence the missing scheduler inserts for a fired
  row, none for the repeat kind \<^verbatim>\<open>none\<close>.
\<close>

definition successor :: "instant \<Rightarrow> reminder \<Rightarrow> instant option" where
  "successor now r = (if repeat r \<noteq> ''none'' then next_occurrence now (repeat r) else None)"

text \<open>
  Modelled from the spec: the loop of the missing scheduler over the due rows. It returns
  the trace, the store failure that ended the scan, if any, and the new process state.
\<close>

fun fire :: "instant \<Rightarrow> (reminder \<Rightarrow> bool) \<Rightarrow> reminder list \<Rightarrow> draft process
    \<Rightarrow> scan_event list \<times> error option \<times> draft process" where
  "fire now notifier [] p = ([], None, p)"
| "fire now notifier (r # rs) p =
     (let delivered = notifier r in
      case delete_reminder_by_id (row_id r) p of
        (Inl e, p1) \<Rightarrow> ([Delivery r delivered], Some e, p1)
      | (Inr _, p1) \<Rightarrow>
          (case successor now r of
             None \<Rightarrow>
               (case fire now notifier rs p1 of
                  (tr, res) \<Rightarrow> (Delivery r delivered # Deletion (row_id r) # tr, res))
           | Some t \<Rightarrow>
               (case save_reminder (user_id r) (message r) t (repeat r) p1 of
                  (Inl e, p2) \<Rightarrow> ([Delivery r delivered, Deletion (row_id r)], Some e, p2)
                | (Inr _, p2) \<Rightarrow>
                    (case fire now notifier rs p2 of
                       (tr, res) \<Rightarrow>
                         (Delivery r delivered # Deletion (row_id r)
                            # Reinsertion (user_id r) (message r) t (repeat r) # tr, res)))))"

text \<open>
  Modelled from the spec: one scan of the missing scheduler at the clock reading \<open>now\<close>.
\<close>

definition scan :: "instant \<Rightarrow> (reminder \<Rightarrow> bool) \<Rightarrow> draft process
    \<Rightarrow> scan_event list \<times> error option \<times> draft process" where
  "scan now notifier p =
     (case db_pool p of
        None \<Rightarrow> ([], Some AttributeError, p)
      | Some db \<Rightarrow> fire now notifier (list_due now db) p)"

section \<open>The running system\<close>

text \<open>
  Modelled from the spec: the conversation handlers and the scheduler loop work on the same
  process, one action at a time.
\<close>

datatype action =
    Handle instant event
  | Scan instant "reminder \<Rightarrow> bool"

text \<open>
  Modelled from the spec: one action of the running system, a handled event or a scan.
\<close>

fun step :: "action \<Rightarrow> draft process \<Rightarrow> draft process" where
  "step (Handle now e) p = fst (handle_event now e p)"
| "step (Scan now notifier) p = snd (snd (scan now notifier p))"

text \<open>
  Modelled from the spec: the actions of the running system, one after the other.
\<close>

fun run :: "action list \<Rightarrow> draft process \<Rightarrow> draft process" where
  "run [] p = p"
| "run (a # as) p = run as (step a p)"

section \<open>Properties of the table\<close>

definition db_ok :: "database \<Rightarrow> bool" where
  \<comment> \<open>the primary key, and every id handed out by the sequence\<close>
  "db_ok db = (distinct (map row_id (reminders db)) \<and>
               list_all (\<lambda>r. row_id r < reminders_id_seq db) (reminders db))"

definition texts_nonempty :: "'d process \<Rightarrow> bool" where
  "texts_nonempty p =
     (case db_pool p of None \<Rightarrow> True | Some db \<Rightarrow> list_all (\<lambda>r. message r \<noteq> []) (reminders db))"

definition drafts_nonempty :: "draft process \<Rightarrow> bool" where
  "drafts_nonempty p =
     (\<forall>uid. case user_state p uid of
              Some (AwaitingTime t) \<Rightarrow> t \<noteq> []
            | Some (AwaitingRepeat t due) \<Rightarrow> t \<noteq> []
            | _ \<Rightarrow> True)"

definition pool_ok :: "'d process \<Rightarrow> bool" where
  "pool_ok p = (case db_pool p of None \<Rightarrow> True | Some db \<Rightarrow> db_ok db)"





section \<open>Sample inputs\<close>

definition sample_environ :: "string \<rightharpoonup> string" where
  "sample_environ = [''BOT_TOKEN'' \<mapsto> ''1:a'', ''DATABASE_URL'' \<mapsto> ''postgres://db'']"

definition sample_process :: "draft process" where
  "sample_process =
     \<lparr>TOKEN = ''1:a'', DATABASE_URL = ''postgres://db'',
      db_pool = Some \<lparr>reminders =
          [\<lparr>row_id = 1, user_id = 7, message = ''Buy milk'', remind_time = 100, repeat = ''none''\<rparr>,
           \<lparr>row_id = 2, user_id = 8, message = ''Call'', remind_time = 300, repeat = ''daily''\<rparr>],
        reminders_id_seq = 3\<rparr>,
      user_state = Map.empty\<rparr>"

definition sample_drafting :: "draft process" where
  "sample_drafting =
     \<lparr>TOKEN = ''1:a'', DATABASE_URL = ''postgres://db'', db_pool = Some empty_table,
      user_state = [7 \<mapsto> AwaitingTime ''Buy milk'']\<rparr>"

definition sample_started :: "draft process" where
  "sample_started =
     \<lparr>TOKEN = ''1:a'', DATABASE_URL = ''postgres://db'', db_pool = Some empty_table,
      user_state = Map.empty\<rparr>"

definition sample_actions :: "action list" where
  "sample_actions =
     [Handle 1704092400000000 (StartNew 7),
      Handle 1704092400000000 (FreeText 7 ''  ''),
      Handle 1704092400000000 (FreeText 7 '' Buy milk ''),
      Handle 1704092400000000 (FreeText 7 ''09:00''),
      Handle 1704092400000000 (RepeatChoice 7 ''daily''),
      Scan 1704175200000000 (\<lambda>r. False),
      Scan 1704261600000000 (\<lambda>r. True)]"

section \<open>Deleting a row\<close>

lemma sql_delete_twice: "sql_delete rid (sql_delete rid db) = sql_delete rid db"
  by (simp add: sql_delete_def)

text \<open>
  C4. Deleting by id is idempotent: for every id and every process state, a second call of
  \<open>delete_reminder_by_id\<close> right after the first gives the result and the state of the
  first; where the pool is there, the second call returns normally and changes nothing.
\<close>

theorem delete_reminder_by_id_idempotent:
  "delete_reminder_by_id rid (snd (delete_reminder_by_id rid p)) = delete_reminder_by_id rid p
   \<and> (db_pool p \<noteq> None \<longrightarrow>
        delete_reminder_by_id rid (snd (delete_reminder_by_id rid p))
          = (Inr PyNone, snd (delete_reminder_by_id rid p)))"
  by (cases "db_pool p") (simp_all add: delete_reminder_by_id_def sql_delete_twice)

theorem delete_reminder_by_id_idempotent_witness:
  "db_pool sample_process \<noteq> None \<and>
   delete_reminder_by_id 1 (snd (delete_reminder_by_id 1 sample_process))
     = (Inr PyNone, snd (delete_reminder_by_id 1 sample_process)) \<and>
   map row_id (reminders (the (db_pool (snd (delete_reminder_by_id 1 sample_process))))) = [2]"
  using delete_reminder_by_id_idempotent [of 1 sample_process]
  by (simp add: sample_process_def delete_reminder_by_id_def sql_delete_def)

text \<open>
  C10. \<open>delete_reminder_by_id\<close> removes only rows of the given id: the rows of any other id
  are the same rows in the same order afterwards, no row of the given id is left, and the
  sequence and the drafts are untouched.
\<close>

theorem delete_reminder_by_id_frame:
  "db_pool p = Some db \<Longrightarrow> delete_reminder_by_id rid p = (res, p') \<Longrightarrow>
     res = Inr PyNone \<and> user_state p' = user_state p \<and>
     (\<exists>db'. db_pool p' = Some db' \<and>
       filter (\<lambda>r. row_id r \<noteq> rid) (reminders db') = filter (\<lambda>r. row_id r \<noteq> rid) (reminders db) \<and>
       list_all (\<lambda>r. row_id r \<noteq> rid) (reminders db') \<and>
       reminders_id_seq db' = reminders_id_seq db)"
  by (auto simp: delete_reminder_by_id_def sql_delete_def list_all_iff)

theorem delete_reminder_by_id_frame_witness:
  "db_pool sample_process \<noteq> None \<and>
   map row_id (reminders (the (db_pool (snd (delete_reminder_by_id 1 sample_process))))) = [2] \<and>
   filter (\<lambda>r. row_id r \<noteq> 1) (reminders (the (db_pool (snd (delete_reminder_by_id 1 sample_process)))))
     = filter (\<lambda>r. row_id r \<noteq> 1) (reminders (the (db_pool sample_process)))"
  using delete_reminder_by_id_frame [of sample_process "the (db_pool sample_process)" 1
      "fst (delete_reminder_by_id 1 sample_process)" "snd (delete_reminder_by_id 1 sample_process)"]
  by (simp add: sample_process_def delete_reminder_by_id_def sql_delete_def)

section \<open>Start of the process\<close>

text \<open>
  C9. When \<^verbatim>\<open>BOT_TOKEN\<close> or \<^verbatim>\<open>DATABASE_URL\<close> is unset or empty, the module raises a
  \<^verbatim>\<open>ValueError\<close>; a process state exists only with both values present and non-empty, and
  it starts without a pool and without drafts.
\<close>

theorem module_init_requires_both:
  "(environ ''BOT_TOKEN'' \<in> {None, Some []} \<or> environ ''DATABASE_URL'' \<in> {None, Some []}
      \<longrightarrow> (\<exists>v. (module_init environ :: error + draft process) = Inl (ValueError v))) \<and>
   (\<forall>p :: draft process. module_init environ = Inr p \<longrightarrow>
      environ ''BOT_TOKEN'' = Some (TOKEN p) \<and> TOKEN p \<noteq> [] \<and>
      environ ''DATABASE_URL'' = Some (DATABASE_URL p) \<and> DATABASE_URL p \<noteq> [] \<and>
      db_pool p = None \<and> user_state p = Map.empty)"
  by (auto simp: module_init_def falsy_def Let_def split: option.splits if_splits)

theorem module_init_requires_both_witness:
  "(\<exists>v. (module_init (sample_environ(''BOT_TOKEN'' := None)) :: error + draft process) = Inl (ValueError v)) \<and>
   (\<exists>v. (module_init (sample_environ(''DATABASE_URL'' \<mapsto> [])) :: error + draft process) = Inl (ValueError v)) \<and>
   (\<exists>p :: draft process. module_init sample_environ = Inr p \<and> TOKEN p = ''1:a'' \<and>
      DATABASE_URL p = ''postgres://db'')"
  using module_init_requires_both [of "sample_environ(''BOT_TOKEN'' := None)"]
    module_init_requires_both [of "sample_environ(''DATABASE_URL'' \<mapsto> [])"]
    module_init_requires_both [of sample_environ]
  by (simp add: sample_environ_def module_init_def falsy_def)

section \<open>The time step\<close>

lemma digit_char_of: "0 \<le> d \<Longrightarrow> d \<le> 9 \<Longrightarrow> digit (char_of (48 + d)) = Some d"
  by (simp add: digit_def Let_def)

lemma parse_hhmm_hhmm:
  assumes "0 \<le> h" "h \<le> 23" "0 \<le> m" "m \<le> 59"
  shows "parse_hhmm (hhmm h m) = Some (h, m)"
proof -
  have h: "0 \<le> h div 10" "h div 10 \<le> 9" "0 \<le> h mod 10" "h mod 10 \<le> 9"
    using assms by auto
  have m: "0 \<le> m div 10" "m div 10 \<le> 9" "0 \<le> m mod 10" "m mod 10 \<le> 9"
    using assms by auto
  show ?thesis
    using assms by (simp add: hhmm_def digit_char_of h m)
qed


lemma astimezone_instant_of:
  assumes "0 \<le> h" "h \<le> 23" "0 \<le> mi" "mi \<le> 59" "0 \<le> s" "s \<le> 59" "0 \<le> us" "us < 1000000"
  shows "astimezone tz (instant_of tz
           \<lparr>day_number = d, hour = h, minute = mi, second = s, microsecond = us\<rparr>)
         = \<lparr>day_number = d, hour = h, minute = mi, second = s, microsecond = us\<rparr>"
proof -
  define l where "l = (((d * 24 + h) * 60 + mi) * 60 + s) * 1000000 + us"
  define r where "r = h * 3600000000 + mi * 60000000 + s * 1000000 + us"
  define r2 where "r2 = mi * 60000000 + s * 1000000 + us"
  define r3 where "r3 = s * 1000000 + us"
  have r: "0 \<le> r" "r < 86400000000"
    using assms unfolding r_def by linarith+
  have r2: "0 \<le> r2" "r2 < 3600000000"
    using assms unfolding r2_def by linarith+
  have r3: "0 \<le> r3" "r3 < 60000000"
    using assms unfolding r3_def by linarith+
  have l1: "l = 86400000000 * d + r"
    by (simp add: l_def r_def)
  have l2: "l = 3600000000 * (d * 24 + h) + r2"
    by (simp add: l_def r2_def)
  have l3: "l = 60000000 * ((d * 24 + h) * 60 + mi) + r3"
    by (simp add: l_def r3_def)
  have l4: "l = 1000000 * (((d * 24 + h) * 60 + mi) * 60 + s) + us"
    by (simp add: l_def)
  have day: "l div 86400000000 = d"
    using l1 r by (rule int_div_pos_eq)
  have tod: "l mod 86400000000 = r"
    using l1 r by (rule int_mod_pos_eq)
  have "r = 3600000000 * h + r2"
    by (simp add: r_def r2_def)
  then have hr: "r div 3600000000 = h"
    using r2 by (rule int_div_pos_eq)
  have m2: "l mod 3600000000 = r2"
    using l2 r2 by (rule int_mod_pos_eq)
  have "r2 = 60000000 * mi + r3"
    by (simp add: r2_def r3_def)
  then have mn: "r2 div 60000000 = mi"
    using r3 by (rule int_div_pos_eq)
  have m3: "l mod 60000000 = r3"
    using l3 r3 by (rule int_mod_pos_eq)
  have "r3 = 1000000 * s + us"
    by (simp add: r3_def)
  then have sc: "r3 div 1000000 = s"
    using assms(7,8) by (rule int_div_pos_eq)
  have m4: "l mod 1000000 = us"
    using l4 assms(7,8) by (rule int_mod_pos_eq)
  have "instant_of tz \<lparr>day_number = d, hour = h, minute = mi, second = s, microsecond = us\<rparr> + tz = l"
    by (simp add: instant_of_def l_def)
  then show ?thesis
    by (simp add: astimezone_def Let_def day tod hr m2 mn m3 sc m4)
qed

lemma div_range:
  fixes x :: int
  assumes "0 \<le> x" "x \<le> u" "0 < b"
  shows "0 \<le> x div b \<and> x div b \<le> u div b"
  using assms by (simp add: pos_imp_zdiv_nonneg_iff zdiv_mono1)

lemma astimezone_ranges:
  "0 \<le> hour (astimezone tz t) \<and> hour (astimezone tz t) \<le> 23 \<and>
   0 \<le> minute (astimezone tz t) \<and> minute (astimezone tz t) \<le> 59 \<and>
   0 \<le> second (astimezone tz t) \<and> second (astimezone tz t) \<le> 59 \<and>
   0 \<le> microsecond (astimezone tz t) \<and> microsecond (astimezone tz t) < 1000000"
proof -
  define l where "l = t + tz"
  have w: "hour (astimezone tz t) = l mod 86400000000 div 3600000000"
    "minute (astimezone tz t) = l mod 3600000000 div 60000000"
    "second (astimezone tz t) = l mod 60000000 div 1000000"
    "microsecond (astimezone tz t) = l mod 1000000"
    unfolding astimezone_def Let_def l_def by simp_all
  have "0 \<le> l mod 86400000000" "l mod 86400000000 \<le> 86399999999"
    using pos_mod_bound [of 86400000000 l] by simp_all
  from div_range [OF this, of 3600000000]
  have h: "0 \<le> l mod 86400000000 div 3600000000 \<and> l mod 86400000000 div 3600000000 \<le> 23"
    by simp
  have "0 \<le> l mod 3600000000" "l mod 3600000000 \<le> 3599999999"
    using pos_mod_bound [of 3600000000 l] by simp_all
  from div_range [OF this, of 60000000]
  have m: "0 \<le> l mod 3600000000 div 60000000 \<and> l mod 3600000000 div 60000000 \<le> 59"
    by simp
  have "0 \<le> l mod 60000000" "l mod 60000000 \<le> 59999999"
    using pos_mod_bound [of 60000000 l] by simp_all
  from div_range [OF this, of 1000000]
  have s: "0 \<le> l mod 60000000 div 1000000 \<and> l mod 60000000 div 1000000 \<le> 59"
    by simp
  have u: "0 \<le> l mod 1000000 \<and> l mod 1000000 < 1000000"
    by simp
  show ?thesis
    unfolding w using h m s u by blast
qed

lemma instant_of_astimezone: "instant_of tz (astimezone tz t) = t"
proof -
  define l where "l = t + tz"
  define q where "q = l div 86400000000"
  define hh where "hh = l mod 86400000000 div 3600000000"
  define mi where "mi = l mod 3600000000 div 60000000"
  define s where "s = l mod 60000000 div 1000000"
  define r1 where "r1 = l mod 86400000000"
  define r2 where "r2 = l mod 3600000000"
  define r3 where "r3 = l mod 60000000"
  define us where "us = l mod 1000000"
  have a: "r1 mod 3600000000 = r2"
    unfolding r1_def r2_def by (rule mod_mod_cancel) simp
  have b: "r2 mod 60000000 = r3"
    unfolding r2_def r3_def by (rule mod_mod_cancel) simp
  have c: "r3 mod 1000000 = us"
    unfolding r3_def us_def by (rule mod_mod_cancel) simp
  have 1: "l = q * 86400000000 + r1"
    by (simp add: q_def r1_def)
  have hh: "r1 div 3600000000 = hh" and mi: "r2 div 60000000 = mi" and s: "r3 div 1000000 = s"
    by (simp_all add: hh_def mi_def s_def r1_def r2_def r3_def)
  have 2: "r1 = hh * 3600000000 + r2"
    using div_mult_mod_eq [of r1 3600000000, symmetric] unfolding hh a .
  have 3: "r2 = mi * 60000000 + r3"
    using div_mult_mod_eq [of r2 60000000, symmetric] unfolding mi b .
  have 4: "r3 = s * 1000000 + us"
    using div_mult_mod_eq [of r3 1000000, symmetric] unfolding s c .
  have "astimezone tz t =
      \<lparr>day_number = q, hour = hh, minute = mi, second = s, microsecond = us\<rparr>"
    by (simp add: astimezone_def Let_def l_def q_def hh_def mi_def s_def us_def)
  then have "instant_of tz (astimezone tz t) + tz =
      (((q * 24 + hh) * 60 + mi) * 60 + s) * 1000000 + us"
    by (simp add: instant_of_def)
  also have "\<dots> = l"
    using 1 2 3 4 by simp
  finally show ?thesis by (simp add: l_def)
qed

lemma wall_clock_at_time:
  "(w :: wall_clock)\<lparr>hour := h, minute := m, second := s, microsecond := us\<rparr> =
     \<lparr>day_number = day_number w, hour = h, minute = m, second = s, microsecond = us\<rparr>"
  by (cases w) simp

lemma today_at_eq:
  "today_at now h m = instant_of MOSCOW_TZ
     \<lparr>day_number = day_number (astimezone MOSCOW_TZ now), hour = h, minute = m, second = 0,
      microsecond = 0\<rparr>"
  unfolding today_at_def wall_clock_at_time ..

lemma today_at_le_now:
  assumes "0 \<le> m" "m \<le> 59"
  shows "today_at now h m \<le> now \<longleftrightarrow>
         (h < hour (astimezone MOSCOW_TZ now) \<or>
          (h = hour (astimezone MOSCOW_TZ now) \<and> m \<le> minute (astimezone MOSCOW_TZ now)))"
proof -
  define w where "w = astimezone MOSCOW_TZ now"
  have rg: "0 \<le> minute w" "minute w \<le> 59" "0 \<le> second w" "second w \<le> 59"
    "0 \<le> microsecond w" "microsecond w < 1000000"
    using astimezone_ranges [of MOSCOW_TZ now] by (simp_all add: w_def)
  have "today_at now h m \<le> instant_of MOSCOW_TZ w \<longleftrightarrow>
        (h < hour w \<or> (h = hour w \<and> m \<le> minute w))"
    unfolding today_at_eq w_def [symmetric] instant_of_def
    using rg assms
    by (cases "h < hour w"; cases "h = hour w"; cases "m \<le> minute w") (simp_all; linarith)+
  then show ?thesis
    unfolding w_def instant_of_astimezone .
qed

lemma now_less_tomorrow:
  assumes "0 \<le> h" "0 \<le> m"
  shows "now < today_at now h m + timedelta 1 0"
proof -
  define w where "w = astimezone MOSCOW_TZ now"
  have rg: "hour w \<le> 23" "minute w \<le> 59" "second w \<le> 59" "microsecond w < 1000000"
    using astimezone_ranges [of MOSCOW_TZ now] by (simp_all add: w_def)
  have "instant_of MOSCOW_TZ w < today_at now h m + timedelta 1 0"
    unfolding today_at_eq w_def [symmetric] instant_of_def timedelta_def
    using rg assms by simp
  then show ?thesis
    unfolding w_def instant_of_astimezone .
qed

lemma astimezone_plus_days:
  "astimezone tz (t + timedelta n 0) = (astimezone tz t)\<lparr>day_number := day_number (astimezone tz t) + n\<rparr>"
proof -
  define l where "l = t + tz"
  have e: "t + timedelta n 0 + tz = l + n * 86400000000"
    by (simp add: timedelta_def l_def)
  have b: "n * 86400000000 = (n * 24) * 3600000000" "n * 86400000000 = (n * 1440) * 60000000"
    "n * 86400000000 = (n * 86400) * 1000000"
    by simp_all
  have d: "(l + n * 86400000000) div 86400000000 = l div 86400000000 + n"
    by simp
  have m1: "(l + n * 86400000000) mod 86400000000 = l mod 86400000000"
    by (rule mod_mult_self1)
  have m2: "(l + n * 86400000000) mod 3600000000 = l mod 3600000000"
    unfolding b(1) by (rule mod_mult_self1)
  have m3: "(l + n * 86400000000) mod 60000000 = l mod 60000000"
    unfolding b(2) by (rule mod_mult_self1)
  have m4: "(l + n * 86400000000) mod 1000000 = l mod 1000000"
    unfolding b(3) by (rule mod_mult_self1)
  have "astimezone tz (t + timedelta n 0) =
      \<lparr>day_number = l div 86400000000 + n,
       hour = l mod 86400000000 div 3600000000,
       minute = l mod 3600000000 div 60000000,
       second = l mod 60000000 div 1000000,
       microsecond = l mod 1000000\<rparr>"
    unfolding astimezone_def Let_def e d m1 m2 m3 m4 ..
  moreover have "astimezone tz t =
      \<lparr>day_number = l div 86400000000,
       hour = l mod 86400000000 div 3600000000,
       minute = l mod 3600000000 div 60000000,
       second = l mod 60000000 div 1000000,
       microsecond = l mod 1000000\<rparr>"
    unfolding astimezone_def Let_def l_def ..
  ultimately show ?thesis
    by simp
qed

lemma astimezone_today_at:
  assumes "0 \<le> h" "h \<le> 23" "0 \<le> m" "m \<le> 59"
  shows "astimezone MOSCOW_TZ (today_at now h m) =
     \<lparr>day_number = day_number (astimezone MOSCOW_TZ now), hour = h, minute = m, second = 0,
      microsecond = 0\<rparr>"
  unfolding today_at_eq using assms by (intro astimezone_instant_of) simp_all

lemma due_at_eq: "due_at now h m =
   (if today_at now h m \<le> now then today_at now h m + timedelta 1 0 else today_at now h m)"
  unfolding due_at_def Let_def ..

lemma today_at_less_tomorrow:
  assumes "h \<le> 23" "m \<le> 59"
  shows "today_at now h m < now + timedelta 1 0"
proof -
  define w where "w = astimezone MOSCOW_TZ now"
  have rg: "0 \<le> hour w" "0 \<le> minute w" "0 \<le> second w" "0 \<le> microsecond w"
    using astimezone_ranges [of MOSCOW_TZ now] by (simp_all add: w_def)
  have "today_at now h m < instant_of MOSCOW_TZ w + timedelta 1 0"
    unfolding today_at_eq w_def [symmetric] instant_of_def timedelta_def
    using rg assms by simp
  then show ?thesis
    unfolding w_def instant_of_astimezone .
qed

lemma due_at_after_now:
  assumes "0 \<le> h" "h \<le> 23" "0 \<le> m" "m \<le> 59"
  shows "now < due_at now h m" and "due_at now h m \<le> now + timedelta 1 0"
  using now_less_tomorrow [of h m now] today_at_less_tomorrow [of h m now] assms
  by (simp_all add: due_at_eq)

lemma astimezone_due_at:
  assumes "0 \<le> h" "h \<le> 23" "0 \<le> m" "m \<le> 59"
  shows "astimezone MOSCOW_TZ (due_at now h m) =
     \<lparr>day_number = day_number (astimezone MOSCOW_TZ now) +
        (if h < hour (astimezone MOSCOW_TZ now) \<or>
            (h = hour (astimezone MOSCOW_TZ now) \<and> m \<le> minute (astimezone MOSCOW_TZ now))
         then 1 else 0),
      hour = h, minute = m, second = 0, microsecond = 0\<rparr>"
proof (cases "today_at now h m \<le> now")
  case True
  then have "due_at now h m = today_at now h m + timedelta 1 0"
    by (simp add: due_at_eq)
  then have "astimezone MOSCOW_TZ (due_at now h m) =
      (astimezone MOSCOW_TZ (today_at now h m))
        \<lparr>day_number := day_number (astimezone MOSCOW_TZ (today_at now h m)) + 1\<rparr>"
    by (simp only: astimezone_plus_days)
  with True show ?thesis
    using assms by (simp add: astimezone_today_at today_at_le_now)
next
  case False
  then have "due_at now h m = today_at now h m"
    by (simp add: due_at_eq)
  with False show ?thesis
    using assms by (simp add: astimezone_today_at today_at_le_now)
qed


text \<open>
  C1. In the \<^verbatim>\<open>awaitingTime\<close> step every text \<^verbatim>\<open>HH:MM\<close> with hour 0 to 23 and minute 0 to 59
  is accepted, and the draft's due instant is strictly after now, at most one day after
  now, reads \<^verbatim>\<open>HH:MM:00\<close> in the fixed offset, and falls on today's date, or on tomorrow's
  exactly when that time of day is not after now's.
\<close>

theorem awaiting_time_due_at:
  assumes "user_state p uid = Some (AwaitingTime txt)"
    and "0 \<le> h" "h \<le> 23" "0 \<le> m" "m \<le> 59"
  shows "\<exists>due. handle_event now (FreeText uid (hhmm h m)) p =
           (p\<lparr>user_state := (user_state p)(uid \<mapsto> AwaitingRepeat txt due)\<rparr>, [(uid, AskRepeat)]) \<and>
         now < due \<and> due \<le> now + timedelta 1 0 \<and>
         astimezone MOSCOW_TZ due =
           \<lparr>day_number = day_number (astimezone MOSCOW_TZ now) +
              (if h < hour (astimezone MOSCOW_TZ now) \<or>
                  (h = hour (astimezone MOSCOW_TZ now) \<and> m \<le> minute (astimezone MOSCOW_TZ now))
               then 1 else 0),
            hour = h, minute = m, second = 0, microsecond = 0\<rparr>"
proof -
  have "handle_event now (FreeText uid (hhmm h m)) p =
      (p\<lparr>user_state := (user_state p)(uid \<mapsto> AwaitingRepeat txt (due_at now h m))\<rparr>,
       [(uid, AskRepeat)])"
    using assms by (simp add: parse_hhmm_hhmm)
  with due_at_after_now [OF assms(2-5), of now] astimezone_due_at [OF assms(2-5), of now]
  show ?thesis by blast
qed

theorem awaiting_time_due_at_witness:
  "user_state sample_drafting 7 = Some (AwaitingTime ''Buy milk'') \<and>
   hhmm 9 0 = ''09:00'' \<and>
   user_state (fst (handle_event 1704092400000000 (FreeText 7 ''09:00'') sample_drafting)) 7
     = Some (AwaitingRepeat ''Buy milk'' 1704175200000000) \<and>
   snd (handle_event 1704092400000000 (FreeText 7 ''09:00'') sample_drafting) = [(7, AskRepeat)] \<and>
   (1704092400000000 :: int) < 1704175200000000 \<and>
   astimezone MOSCOW_TZ 1704092400000000 =
     \<lparr>day_number = 19723, hour = 10, minute = 0, second = 0, microsecond = 0\<rparr> \<and>
   astimezone MOSCOW_TZ 1704175200000000 =
     \<lparr>day_number = 19724, hour = 9, minute = 0, second = 0, microsecond = 0\<rparr> \<and>
   civil_from_days 19723 = (2024, 1, 1) \<and> civil_from_days 19724 = (2024, 1, 2)"
proof -
  have hyp: "user_state sample_drafting 7 = Some (AwaitingTime ''Buy milk'')"
    by (simp add: sample_drafting_def)
  have shape: "hhmm 9 0 = ''09:00''"
    by code_simp
  have run: "user_state (fst (handle_event 1704092400000000 (FreeText 7 ''09:00'') sample_drafting)) 7
       = Some (AwaitingRepeat ''Buy milk'' 1704175200000000) \<and>
     snd (handle_event 1704092400000000 (FreeText 7 ''09:00'') sample_drafting) = [(7, AskRepeat)]"
    by code_simp
  have now: "astimezone MOSCOW_TZ 1704092400000000 =
     \<lparr>day_number = 19723, hour = 10, minute = 0, second = 0, microsecond = 0\<rparr>"
    by code_simp
  have cal: "civil_from_days 19723 = (2024, 1, 1) \<and> civil_from_days 19724 = (2024, 1, 2)"
    by code_simp
  from awaiting_time_due_at [OF hyp, of 9 0 1704092400000000]
  obtain due where
    ev: "handle_event 1704092400000000 (FreeText 7 (hhmm 9 0)) sample_drafting =
      (sample_drafting\<lparr>user_state := (user_state sample_drafting)(7 \<mapsto> AwaitingRepeat ''Buy milk'' due)\<rparr>,
       [(7, AskRepeat)])"
    and after: "1704092400000000 < due"
    and clock: "astimezone MOSCOW_TZ due =
       \<lparr>day_number = day_number (astimezone MOSCOW_TZ 1704092400000000) +
          (if 9 < hour (astimezone MOSCOW_TZ 1704092400000000) \<or>
              (9 = hour (astimezone MOSCOW_TZ 1704092400000000) \<and>
               0 \<le> minute (astimezone MOSCOW_TZ 1704092400000000))
           then 1 else 0),
        hour = 9, minute = 0, second = 0, microsecond = 0\<rparr>"
    by auto
  from ev run have due: "due = 1704175200000000"
    by (simp add: shape)
  from clock have "astimezone MOSCOW_TZ 1704175200000000 =
     \<lparr>day_number = 19724, hour = 9, minute = 0, second = 0, microsecond = 0\<rparr>"
    unfolding due now by simp
  with hyp shape run now cal after due show ?thesis
    by simp
qed


section \<open>Recurrence\<close>

text \<open>
  C2. For every base time the recurrence calculator gives now + 1 day for daily, now + 7
  days for weekly and now + 30 days for monthly; \<open>n\<close> successive weekly firings land
  exactly \<open>7 n\<close> days after the start, at the same time of day, and a monthly one lands 30
  day numbers later whatever the month.
\<close>

theorem next_occurrence_fixed_durations:
  "next_occurrence now ''daily'' = Some (now + timedelta 1 0) \<and>
   next_occurrence now ''weekly'' = Some (now + timedelta 7 0) \<and>
   next_occurrence now ''monthly'' = Some (now + timedelta 30 0) \<and>
   firings n now ''weekly'' = Some (now + int n * timedelta 7 0) \<and>
   astimezone MOSCOW_TZ (now + timedelta 7 0) =
     (astimezone MOSCOW_TZ now)\<lparr>day_number := day_number (astimezone MOSCOW_TZ now) + 7\<rparr> \<and>
   astimezone MOSCOW_TZ (now + timedelta 30 0) =
     (astimezone MOSCOW_TZ now)\<lparr>day_number := day_number (astimezone MOSCOW_TZ now) + 30\<rparr> \<and>
   timedelta 1 0 = 86400000000"
proof -
  have "firings n now ''weekly'' = Some (now + int n * timedelta 7 0)"
    by (induction n) (simp_all add: next_occurrence_def algebra_simps)
  then show ?thesis
    by (simp add: next_occurrence_def astimezone_plus_days) (simp add: timedelta_def)
qed

theorem next_occurrence_fixed_durations_witness:
  "astimezone MOSCOW_TZ 1704088800000000 =
     \<lparr>day_number = 19723, hour = 9, minute = 0, second = 0, microsecond = 0\<rparr> \<and>
   map_option (astimezone MOSCOW_TZ) (firings 1 1704088800000000 ''weekly'') =
     Some \<lparr>day_number = 19730, hour = 9, minute = 0, second = 0, microsecond = 0\<rparr> \<and>
   map_option (astimezone MOSCOW_TZ) (firings 2 1704088800000000 ''weekly'') =
     Some \<lparr>day_number = 19737, hour = 9, minute = 0, second = 0, microsecond = 0\<rparr> \<and>
   civil_from_days 19723 = (2024, 1, 1) \<and> civil_from_days 19730 = (2024, 1, 8) \<and>
   civil_from_days 19737 = (2024, 1, 15) \<and>
   firings 2 1704088800000000 ''weekly'' = Some (1704088800000000 + 2 * timedelta 7 0) \<and>
   map_option (astimezone MOSCOW_TZ) (next_occurrence 1706680800000000 ''monthly'') =
     Some \<lparr>day_number = 19783, hour = 9, minute = 0, second = 0, microsecond = 0\<rparr> \<and>
   civil_from_days 19753 = (2024, 1, 31) \<and> civil_from_days 19783 = (2024, 3, 1) \<and>
   astimezone MOSCOW_TZ 1706680800000000 =
     \<lparr>day_number = 19753, hour = 9, minute = 0, second = 0, microsecond = 0\<rparr>"
proof -
  have ev: "astimezone MOSCOW_TZ 1704088800000000 =
     \<lparr>day_number = 19723, hour = 9, minute = 0, second = 0, microsecond = 0\<rparr> \<and>
   map_option (astimezone MOSCOW_TZ) (firings 1 1704088800000000 ''weekly'') =
     Some \<lparr>day_number = 19730, hour = 9, minute = 0, second = 0, microsecond = 0\<rparr> \<and>
   map_option (astimezone MOSCOW_TZ) (firings 2 1704088800000000 ''weekly'') =
     Some \<lparr>day_number = 19737, hour = 9, minute = 0, second = 0, microsecond = 0\<rparr> \<and>
   civil_from_days 19723 = (2024, 1, 1) \<and> civil_from_days 19730 = (2024, 1, 8) \<and>
   civil_from_days 19737 = (2024, 1, 15)"
    by code_simp
  have ev2: "map_option (astimezone MOSCOW_TZ) (next_occurrence 1706680800000000 ''monthly'') =
     Some \<lparr>day_number = 19783, hour = 9, minute = 0, second = 0, microsecond = 0\<rparr> \<and>
   civil_from_days 19753 = (2024, 1, 31) \<and> civil_from_days 19783 = (2024, 3, 1) \<and>
   astimezone MOSCOW_TZ 1706680800000000 =
     \<lparr>day_number = 19753, hour = 9, minute = 0, second = 0, microsecond = 0\<rparr>"
    by code_simp
  from next_occurrence_fixed_durations [of 1704088800000000 2]
  have "firings 2 1704088800000000 ''weekly'' = Some (1704088800000000 + 2 * timedelta 7 0)"
    by simp
  with ev ev2 show ?thesis
    by simp
qed


section \<open>A repeat choice without a draft\<close>

text \<open>
  C7. A repeat choice that finds no draft of that user in the \<^verbatim>\<open>awaitingRepeat\<close> step
  (no draft at all, or one in an earlier step) is answered with the expired-session notice
  to that user and leaves the whole process state, table and drafts, as it was.
\<close>

theorem repeat_choice_without_draft:
  assumes "\<forall>t due. user_state p uid \<noteq> Some (AwaitingRepeat t due)"
  shows "handle_event now (RepeatChoice uid kind) p = (p, [(uid, ExpiredSession)])"
  using assms by (auto split: option.splits draft.splits)

theorem repeat_choice_without_draft_witness:
  "(\<forall>t due. user_state sample_process 7 \<noteq> Some (AwaitingRepeat t due)) \<and>
   handle_event 500 (RepeatChoice 7 ''daily'') sample_process = (sample_process, [(7, ExpiredSession)]) \<and>
   (\<forall>t due. user_state sample_drafting 7 \<noteq> Some (AwaitingRepeat t due)) \<and>
   handle_event 500 (RepeatChoice 7 ''daily'') sample_drafting = (sample_drafting, [(7, ExpiredSession)])"
proof -
  have a: "\<forall>t due. user_state sample_process 7 \<noteq> Some (AwaitingRepeat t due)"
    by (simp add: sample_process_def)
  have b: "\<forall>t due. user_state sample_drafting 7 \<noteq> Some (AwaitingRepeat t due)"
    by (simp add: sample_drafting_def)
  from repeat_choice_without_draft [OF a, of 500 "''daily''"]
    repeat_choice_without_draft [OF b, of 500 "''daily''"] a b
  show ?thesis by blast
qed

section \<open>Inserting a row\<close>

lemma sql_insert_result:
  "sql_insert uid msg t rep db = (e, db') \<Longrightarrow>
     (e = None \<longleftrightarrow> reminders_id_seq db \<le> SERIAL_MAX \<and> reminders_id_seq db \<notin> set (map row_id (reminders db))) \<and>
     (e = None \<longrightarrow> reminders db' = reminders db @
         [\<lparr>row_id = reminders_id_seq db, user_id = uid, message = msg, remind_time = t, repeat = rep\<rparr>]
         \<and> reminders_id_seq db' = reminders_id_seq db + 1) \<and>
     (e \<noteq> None \<longrightarrow> reminders db' = reminders db)"
  by (auto simp: sql_insert_def Let_def split: if_splits)

lemma db_ok_fresh: "db_ok db \<Longrightarrow> reminders_id_seq db \<notin> set (map row_id (reminders db))"
  by (auto simp: db_ok_def list_all_iff)

lemma db_ok_sql_insert: "db_ok db \<Longrightarrow> db_ok (snd (sql_insert uid msg t rep db))"
  by (auto simp: db_ok_def sql_insert_def Let_def list_all_iff)

lemma db_ok_sql_delete: "db_ok db \<Longrightarrow> db_ok (sql_delete rid db)"
  by (auto simp: db_ok_def sql_delete_def list_all_iff distinct_map_filter)

text \<open>
  C6, as amended. \<open>save_reminder\<close> returns \<^verbatim>\<open>None\<close> whenever it returns; the row it
  inserts gets the next value of the table's sequence as its id, an id no row of the table
  has, and that id is not handed back to the caller. With the table's ids all below the
  sequence and the sequence within the range of \<^verbatim>\<open>SERIAL\<close> the insert succeeds.
\<close>

theorem save_reminder_returns_none:
  assumes "db_pool p = Some db" and "save_reminder uid msg t rep p = (res, p')"
  shows "(res = Inr PyNone \<or> (\<exists>e. res = Inl e)) \<and>
         (\<exists>db'. db_pool p' = Some db' \<and>
            (res = Inr PyNone \<longrightarrow>
               reminders db' = reminders db @
                 [\<lparr>row_id = reminders_id_seq db, user_id = uid, message = msg, remind_time = t,
                   repeat = rep\<rparr>] \<and>
               reminders_id_seq db \<notin> set (map row_id (reminders db)) \<and>
               reminders_id_seq db' = reminders_id_seq db + 1) \<and>
            (db_ok db \<and> reminders_id_seq db \<le> SERIAL_MAX \<longrightarrow> res = Inr PyNone \<and> db_ok db'))"
proof -
  obtain e db' where ins: "sql_insert uid msg t rep db = (e, db')"
    by (cases "sql_insert uid msg t rep db")
  from assms ins have res: "res = (case e of None \<Rightarrow> Inr PyNone | Some x \<Rightarrow> Inl x)"
    and p': "db_pool p' = Some db'"
    by (auto simp: save_reminder_def split: option.splits)
  from db_ok_sql_insert [of db uid msg t rep] ins have ok: "db_ok db \<Longrightarrow> db_ok db'"
    by simp
  from sql_insert_result [OF ins] res p' ok db_ok_fresh [of db] show ?thesis
    by (cases e) auto
qed


theorem save_reminder_returns_none_witness:
  "db_pool sample_process \<noteq> None \<and> db_ok (the (db_pool sample_process)) \<and>
   fst (save_reminder 9 ''Tea'' 500 ''weekly'' sample_process) = Inr PyNone \<and>
   db_ok (the (db_pool (snd (save_reminder 9 ''Tea'' 500 ''weekly'' sample_process))))"
  using save_reminder_returns_none [of sample_process "the (db_pool sample_process)" 9 "''Tea''" 500
      "''weekly''" "fst (save_reminder 9 ''Tea'' 500 ''weekly'' sample_process)"
      "snd (save_reminder 9 ''Tea'' 500 ''weekly'' sample_process)"]
  by (simp add: sample_process_def db_ok_def SERIAL_MAX_def save_reminder_def sql_insert_def)

text \<open>
  C6, as stated, fails: the call that inserts the row of id 3 returns \<^verbatim>\<open>None\<close>, not 3.
\<close>

theorem save_reminder_returns_id_counterexample:
  "fst (save_reminder 9 ''Tea'' 500 ''weekly'' sample_process) = Inr PyNone \<and>
   map row_id (reminders (the (db_pool (snd (save_reminder 9 ''Tea'' 500 ''weekly'' sample_process)))))
     = [1, 2, 3] \<and>
   fst (save_reminder 9 ''Tea'' 500 ''weekly'' sample_process) \<noteq> Inr (PyInt 3)"
  by (simp add: sample_process_def save_reminder_def sql_insert_def SERIAL_MAX_def)


section \<open>Invariants of the running system\<close>

lemma user_state_delete [simp]:
  "user_state (snd (delete_reminder_by_id rid p)) = user_state p"
  by (simp add: delete_reminder_by_id_def split: option.splits)

lemma user_state_save [simp]:
  "user_state (snd (save_reminder uid msg t rep p)) = user_state p"
  by (simp add: save_reminder_def split: option.splits prod.splits)

lemma texts_nonempty_delete:
  "texts_nonempty p \<Longrightarrow> texts_nonempty (snd (delete_reminder_by_id rid p))"
  by (auto simp: texts_nonempty_def delete_reminder_by_id_def sql_delete_def list_all_iff
      split: option.splits)

lemma texts_nonempty_save:
  "texts_nonempty p \<Longrightarrow> msg \<noteq> [] \<Longrightarrow> texts_nonempty (snd (save_reminder uid msg t rep p))"
  by (auto simp: texts_nonempty_def save_reminder_def sql_insert_def Let_def list_all_iff
      split: option.splits prod.splits if_splits)

lemma texts_nonempty_discard [simp]:
  "texts_nonempty (discard_draft uid p) = texts_nonempty p"
  by (simp add: texts_nonempty_def discard_draft_def)

lemma fire_keeps_texts:
  "texts_nonempty p \<Longrightarrow> list_all (\<lambda>r. message r \<noteq> []) rs \<Longrightarrow>
     texts_nonempty (snd (snd (fire now notifier rs p)))"
proof (induction rs arbitrary: p)
  case Nil
  then show ?case by simp
next
  case (Cons r rs)
  obtain res1 p1 where d: "delete_reminder_by_id (row_id r) p = (res1, p1)"
    by (cases "delete_reminder_by_id (row_id r) p")
  from texts_nonempty_delete [OF Cons.prems(1), of "row_id r"] d have p1: "texts_nonempty p1"
    by simp
  from Cons.prems(2) have r: "message r \<noteq> []" and rs: "list_all (\<lambda>r. message r \<noteq> []) rs"
    by simp_all
  show ?case
  proof (cases res1)
    case (Inl e)
    with d p1 show ?thesis by simp
  next
    case (Inr v)
    show ?thesis
    proof (cases "successor now r")
      case None
      with d Inr Cons.IH [OF p1 rs] show ?thesis
        by (auto split: prod.splits)
    next
      case (Some t)
      obtain res2 p2 where s: "save_reminder (user_id r) (message r) t (repeat r) p1 = (res2, p2)"
        by (cases "save_reminder (user_id r) (message r) t (repeat r) p1")
      from texts_nonempty_save [OF p1 r, of "user_id r" t "repeat r"] s have p2: "texts_nonempty p2"
        by simp
      from d Inr Some s p2 Cons.IH [OF p2 rs] show ?thesis
        by (cases res2) (auto split: prod.splits)
    qed
  qed
qed

lemma fire_keeps_drafts [simp]:
  "user_state (snd (snd (fire now notifier rs p))) = user_state p"
proof (induction rs arbitrary: p)
  case Nil
  then show ?case by simp
next
  case (Cons r rs)
  obtain res1 p1 where d: "delete_reminder_by_id (row_id r) p = (res1, p1)"
    by (cases "delete_reminder_by_id (row_id r) p")
  then have u1: "user_state p1 = user_state p"
    using user_state_delete [of "row_id r" p] by simp
  show ?case
  proof (cases res1)
    case (Inl e)
    with d u1 show ?thesis by simp
  next
    case (Inr v)
    show ?thesis
    proof (cases "successor now r")
      case None
      with d Inr u1 Cons.IH [of p1] show ?thesis
        by (auto split: prod.splits)
    next
      case (Some t)
      obtain res2 p2 where s: "save_reminder (user_id r) (message r) t (repeat r) p1 = (res2, p2)"
        by (cases "save_reminder (user_id r) (message r) t (repeat r) p1")
      then have u2: "user_state p2 = user_state p1"
        using user_state_save [of "user_id r" "message r" t "repeat r" p1] by simp
      from d Inr Some s u1 u2 Cons.IH [of p2] show ?thesis
        by (cases res2) (auto split: prod.splits)
    qed
  qed
qed

lemma scan_keeps_texts: "texts_nonempty p \<Longrightarrow> texts_nonempty (snd (snd (scan now notifier p)))"
proof (cases "db_pool p")
  case None
  assume "texts_nonempty p"
  with None show ?thesis by (simp add: scan_def)
next
  case (Some db)
  assume a: "texts_nonempty p"
  with Some have "list_all (\<lambda>r. message r \<noteq> []) (list_due now db)"
    by (simp add: texts_nonempty_def list_due_def list_all_iff)
  from fire_keeps_texts [OF a this] Some show ?thesis
    by (simp add: scan_def)
qed

lemma scan_keeps_drafts [simp]: "user_state (snd (snd (scan now notifier p))) = user_state p"
  by (simp add: scan_def split: option.splits)

lemma drafts_nonempty_cong: "user_state p' = user_state p \<Longrightarrow> drafts_nonempty p' = drafts_nonempty p"
  by (simp add: drafts_nonempty_def)

lemma handle_event_keeps:
  assumes "texts_nonempty p" "drafts_nonempty p"
  shows "texts_nonempty (fst (handle_event now e p)) \<and> drafts_nonempty (fst (handle_event now e p))"
proof (cases e)
  case (StartNew uid)
  with assms show ?thesis
    by (auto simp: texts_nonempty_def drafts_nonempty_def split: option.splits draft.splits)
next
  case (FreeText uid s)
  with assms show ?thesis
    by (auto simp: texts_nonempty_def drafts_nonempty_def Let_def split: option.splits draft.splits)
next
  case (RepeatChoice uid kind)
  show ?thesis
  proof (cases "\<exists>t due label. user_state p uid = Some (AwaitingRepeat t due) \<and>
      map_of REPEAT_TYPES kind = Some label")
    case True
    then obtain t due label where u: "user_state p uid = Some (AwaitingRepeat t due)"
      and l: "map_of REPEAT_TYPES kind = Some label"
      by blast
    from assms(2) u have t: "t \<noteq> []"
      by (auto simp: drafts_nonempty_def dest: spec [of _ uid])
    obtain res p' where s: "save_reminder uid t due kind p = (res, p')"
      by (cases "save_reminder uid t due kind p")
    from texts_nonempty_save [OF assms(1) t, of uid due kind] s have tp: "texts_nonempty p'"
      by simp
    from user_state_save [of uid t due kind p] s have up: "user_state p' = user_state p"
      by simp
    have st: "fst (handle_event now e p) = discard_draft uid p'"
      using RepeatChoice u l s by (cases res) simp_all
    have "drafts_nonempty (discard_draft uid p')"
      using assms(2) up by (auto simp: drafts_nonempty_def discard_draft_def)
    with tp st show ?thesis by simp
  next
    case False
    then have "fst (handle_event now e p) = p"
      using RepeatChoice by (auto split: option.splits draft.splits)
    with assms show ?thesis by simp
  qed
next
  case (Cancel uid)
  with assms show ?thesis
    by (auto simp: texts_nonempty_def drafts_nonempty_def discard_draft_def)
next
  case (DeleteRequest uid rid)
  with assms texts_nonempty_delete [of p rid] show ?thesis
    by (simp add: drafts_nonempty_cong [of "snd (delete_reminder_by_id rid p)" p])
qed

lemma step_keeps:
  assumes "texts_nonempty p" "drafts_nonempty p"
  shows "texts_nonempty (step a p) \<and> drafts_nonempty (step a p)"
proof (cases a)
  case (Handle now e)
  with handle_event_keeps [OF assms] show ?thesis by simp
next
  case (Scan now notifier)
  with scan_keeps_texts [OF assms(1)] assms(2) show ?thesis
    by (simp add: drafts_nonempty_cong [of "snd (snd (scan now notifier p))" p])
qed

lemma run_keeps:
  "texts_nonempty p \<Longrightarrow> drafts_nonempty p \<Longrightarrow>
     texts_nonempty (run as p) \<and> drafts_nonempty (run as p)"
proof (induction as arbitrary: p)
  case Nil
  then show ?case by simp
next
  case (Cons a as)
  from step_keeps [OF Cons.prems, of a] Cons.IH [of "step a p"] show ?case
    by simp
qed

lemma pool_ok_delete: "pool_ok p \<Longrightarrow> pool_ok (snd (delete_reminder_by_id rid p))"
  by (auto simp: pool_ok_def delete_reminder_by_id_def db_ok_sql_delete split: option.splits)

lemma pool_ok_save: "pool_ok p \<Longrightarrow> pool_ok (snd (save_reminder uid msg t rep p))"
proof (cases "db_pool p")
  case None
  assume "pool_ok p"
  with None show ?thesis by (simp add: save_reminder_def)
next
  case (Some db)
  assume "pool_ok p"
  with Some have "db_ok db"
    by (simp add: pool_ok_def)
  from db_ok_sql_insert [OF this, of uid msg t rep] Some show ?thesis
    by (auto simp: pool_ok_def save_reminder_def split: prod.splits option.splits)
qed

lemma fire_keeps_pool_ok: "pool_ok p \<Longrightarrow> pool_ok (snd (snd (fire now notifier rs p)))"
proof (induction rs arbitrary: p)
  case Nil
  then show ?case by simp
next
  case (Cons r rs)
  obtain res1 p1 where d: "delete_reminder_by_id (row_id r) p = (res1, p1)"
    by (cases "delete_reminder_by_id (row_id r) p")
  from pool_ok_delete [OF Cons.prems, of "row_id r"] d have p1: "pool_ok p1"
    by simp
  show ?case
  proof (cases res1)
    case (Inl e)
    with d p1 show ?thesis by simp
  next
    case (Inr v)
    show ?thesis
    proof (cases "successor now r")
      case None
      with d Inr Cons.IH [OF p1] show ?thesis
        by (auto split: prod.splits)
    next
      case (Some t)
      obtain res2 p2 where s: "save_reminder (user_id r) (message r) t (repeat r) p1 = (res2, p2)"
        by (cases "save_reminder (user_id r) (message r) t (repeat r) p1")
      from pool_ok_save [OF p1, of "user_id r" "message r" t "repeat r"] s have p2: "pool_ok p2"
        by simp
      from d Inr Some s p2 Cons.IH [OF p2] show ?thesis
        by (cases res2) (auto split: prod.splits)
    qed
  qed
qed

lemma step_keeps_pool_ok: "pool_ok p \<Longrightarrow> pool_ok (step a p)"
proof (cases a)
  case (Handle now e)
  assume ok: "pool_ok p"
  have dd: "pool_ok (discard_draft uid q) = pool_ok q" for uid and q :: "draft process"
    by (simp add: pool_ok_def discard_draft_def)
  have "pool_ok (fst (handle_event now e p))"
  proof (cases e)
    case (StartNew uid)
    with ok show ?thesis by (simp add: pool_ok_def)
  next
    case (FreeText uid s)
    with ok show ?thesis
      by (auto simp: pool_ok_def Let_def split: option.splits draft.splits)
  next
    case (RepeatChoice uid kind)
    show ?thesis
    proof (cases "\<exists>t due label. user_state p uid = Some (AwaitingRepeat t due) \<and>
        map_of REPEAT_TYPES kind = Some label")
      case True
      then obtain t due label where u: "user_state p uid = Some (AwaitingRepeat t due)"
        and l: "map_of REPEAT_TYPES kind = Some label"
        by blast
      obtain res p' where s: "save_reminder uid t due kind p = (res, p')"
        by (cases "save_reminder uid t due kind p")
      from pool_ok_save [OF ok, of uid t due kind] s have "pool_ok p'"
        by simp
      moreover have "fst (handle_event now e p) = discard_draft uid p'"
        using RepeatChoice u l s by (cases res) simp_all
      ultimately show ?thesis by (simp add: dd)
    next
      case False
      then have "fst (handle_event now e p) = p"
        using RepeatChoice by (auto split: option.splits draft.splits)
      with ok show ?thesis by simp
    qed
  next
    case (Cancel uid)
    with ok show ?thesis by (simp add: dd)
  next
    case (DeleteRequest uid rid)
    with pool_ok_delete [OF ok, of rid] show ?thesis by simp
  qed
  with Handle show ?thesis by simp
next
  case (Scan now notifier)
  assume "pool_ok p"
  from fire_keeps_pool_ok [OF this] Scan \<open>pool_ok p\<close> show ?thesis
    by (simp add: scan_def split: option.splits)
qed

lemma run_keeps_pool_ok: "pool_ok p \<Longrightarrow> pool_ok (run as p)"
  by (induction as arbitrary: p) (simp_all add: step_keeps_pool_ok)

lemma pool_ok_start: "pool_ok (init_db None p)"
  by (simp add: pool_ok_def init_db_def empty_table_def db_ok_def)

text \<open>
  C5. No stored reminder has an empty text: from a state whose rows and drafts have
  non-empty texts (the state after \<open>init_db\<close> on a fresh table is one), every sequence
  of handled events and scheduler scans leads to a state whose rows all have a non-empty
  message; the drafts keep non-empty texts too, because a text that is empty after
  trimming is rejected in the \<^verbatim>\<open>awaitingText\<close> step and leaves the state as it was.
\<close>

theorem stored_text_never_empty:
  assumes "texts_nonempty p" and "drafts_nonempty p"
  shows "(\<forall>db. db_pool (run acts p) = Some db \<longrightarrow> (\<forall>r \<in> set (reminders db). message r \<noteq> [])) \<and>
         drafts_nonempty (run acts p) \<and>
         (\<forall>uid s now. user_state p uid = Some AwaitingText \<and> strip s = [] \<longrightarrow>
            handle_event now (FreeText uid s) p = (p, [(uid, EmptyTextRejected)]))"
  using run_keeps [OF assms, of acts]
  by (auto simp: texts_nonempty_def list_all_iff)

theorem stored_text_never_empty_witness:
  "module_init sample_environ = Inr (sample_started\<lparr>db_pool := None\<rparr>) \<and>
   init_db None (sample_started\<lparr>db_pool := None\<rparr>) = sample_started \<and>
   texts_nonempty sample_started \<and> drafts_nonempty sample_started \<and>
   map (\<lambda>r. (row_id r, message r, repeat r))
       (reminders (the (db_pool (run sample_actions sample_started)))) = [(3, ''Buy milk'', ''daily'')] \<and>
   list_all (\<lambda>r. message r \<noteq> []) (reminders (the (db_pool (run sample_actions sample_started)))) \<and>
   user_state (run (take 2 sample_actions) sample_started) 7 = Some AwaitingText \<and>
   user_state (run (take 3 sample_actions) sample_started) 7 = Some (AwaitingTime ''Buy milk'')"
proof -
  have start: "module_init sample_environ = Inr (sample_started\<lparr>db_pool := None\<rparr>) \<and>
      init_db None (sample_started\<lparr>db_pool := None\<rparr>) = sample_started"
    by (simp add: module_init_def sample_environ_def sample_started_def falsy_def init_db_def)
  have t: "texts_nonempty sample_started"
    by (simp add: texts_nonempty_def sample_started_def empty_table_def)
  have d: "drafts_nonempty sample_started"
    by (simp add: drafts_nonempty_def sample_started_def)
  have ev: "db_pool (run sample_actions sample_started) =
        Some (the (db_pool (run sample_actions sample_started))) \<and>
      map (\<lambda>r. (row_id r, message r, repeat r))
        (reminders (the (db_pool (run sample_actions sample_started)))) = [(3, ''Buy milk'', ''daily'')] \<and>
      user_state (run (take 2 sample_actions) sample_started) 7 = Some AwaitingText \<and>
      user_state (run (take 3 sample_actions) sample_started) 7 = Some (AwaitingTime ''Buy milk'')"
    by code_simp
  from stored_text_never_empty [OF t d, of sample_actions]
  have "\<forall>db. db_pool (run sample_actions sample_started) = Some db \<longrightarrow>
      (\<forall>r \<in> set (reminders db). message r \<noteq> [])"
    by blast
  moreover from ev have "db_pool (run sample_actions sample_started) =
      Some (the (db_pool (run sample_actions sample_started)))"
    by blast
  ultimately have "\<forall>r \<in> set (reminders (the (db_pool (run sample_actions sample_started)))).
      message r \<noteq> []"
    by blast
  then have "list_all (\<lambda>r. message r \<noteq> [])
      (reminders (the (db_pool (run sample_actions sample_started))))"
    by (simp add: list_all_iff)
  with start t d ev show ?thesis
    by simp
qed

section \<open>A scheduler scan\<close>













end
